theory Spec2Isabelle
  imports Complex_Main
begin

section \<open>The head-nod example: oscillator and pose generator\<close>

text \<open>
  A shallow embedding of \<^verbatim>\<open>src/python/puppetry/examples/head_nod.py\<close>, in two layers.

  The first layer computes over \<^typ>\<open>real\<close>: every arithmetic operation is exact,
  \<^verbatim>\<open>math.pi\<close> is \<^term>\<open>pi\<close>, \<^verbatim>\<open>math.sin\<close> and \<^verbatim>\<open>math.cos\<close> are the real functions. It
  is the program with rounding and overflow left out.

  The second layer is the class \<^verbatim>\<open>Sho\<close> over IEEE 754 binary64, the arithmetic of
  Python's \<^verbatim>\<open>float\<close>: every operation rounds to nearest, ties to even, overflows to an
  infinity, and \<^verbatim>\<open>int()\<close> raises on an infinity or a NaN.

  Exceptions are values: a computation returns \<open>error + 'a\<close>, with \<open>Inl\<close> the exception.
\<close>

subsection \<open>Python primitives\<close>

datatype error = ZeroDivisionError | OverflowError | ValueError

text \<open>Float division \<^verbatim>\<open>a / b\<close>: raises when the divisor is zero.\<close>

definition py_div :: "real \<Rightarrow> real \<Rightarrow> error + real" where
  "py_div a b = (if b = 0 then Inl ZeroDivisionError else Inr (a / b))"

text \<open>\<^verbatim>\<open>int(x)\<close> of a float: truncation toward zero.\<close>

definition py_int :: "real \<Rightarrow> int" where
  "py_int x = (if 0 \<le> x then \<lfloor>x\<rfloor> else \<lceil>x\<rceil>)"

subsection \<open>class Sho (lines 93--111)\<close>

record Sho =
  wave_speed :: real
  period :: real
  t :: real

text \<open>
  Lines 100--101 and 104--105, the same two lines in the constructor and in
  \<^verbatim>\<open>advance\<close>:
  \<^verbatim>\<open>if self.t > self.period or self.t < -self.period:
      self.t -= int(self.t / self.period) * self.period\<close>
\<close>

definition wrap :: "Sho \<Rightarrow> error + Sho" where
  "wrap s =
     (if t s > period s \<or> t s < - period s then
        (case py_div (t s) (period s) of
           Inl e \<Rightarrow> Inl e
         | Inr q \<Rightarrow> Inr (s\<lparr>t := t s - of_int (py_int q) * period s\<rparr>))
      else Inr s)"

text \<open>\<^verbatim>\<open>Sho.__init__(self, frequency=1.0, phase=0.0)\<close>, lines 95--101.\<close>

definition Sho_init :: "real \<Rightarrow> real \<Rightarrow> error + Sho" where
  "Sho_init frequency phase =
     (let frequency' = \<bar>frequency\<bar>;
          ws = 2 * pi * frequency'
      in case py_div 1 frequency' of
           Inl e \<Rightarrow> Inl e
         | Inr p \<Rightarrow>
            (case py_div phase ws of
               Inl e \<Rightarrow> Inl e
             | Inr t0 \<Rightarrow> wrap \<lparr>wave_speed = ws, period = p, t = t0\<rparr>))"

text \<open>\<^verbatim>\<open>Sho.advance(self, dt)\<close>, lines 102--105.\<close>

definition advance :: "Sho \<Rightarrow> real \<Rightarrow> error + Sho" where
  "advance s dt = wrap (s\<lparr>t := t s + dt\<rparr>)"

text \<open>The queries, lines 106--111.\<close>

definition sin_Sho :: "Sho \<Rightarrow> real" where
  "sin_Sho s = sin (t s * wave_speed s)"

definition cos_Sho :: "Sho \<Rightarrow> real" where
  "cos_Sho s = cos (t s * wave_speed s)"

definition theta :: "Sho \<Rightarrow> real" where
  "theta s = t s * wave_speed s"

text \<open>A sequence of \<^verbatim>\<open>advance\<close> calls on one oscillator; the first exception ends it.\<close>

fun advances :: "Sho \<Rightarrow> real list \<Rightarrow> error + Sho" where
  "advances s [] = Inr s"
| "advances s (dt # dts) =
     (case advance s dt of Inl e \<Rightarrow> Inl e | Inr s' \<Rightarrow> advances s' dts)"

subsection \<open>Module-level state (lines 113--123)\<close>

definition pulse_period :: real where
  "pulse_period = 16"

definition oscillation_period :: real where
  "oscillation_period = 2"

definition amplitude :: real where
  "amplitude = pi / 6"

definition update_period :: real where
  "update_period = 1 / 10"

text \<open>The two global oscillators, which \<^verbatim>\<open>computeData\<close> mutates.\<close>

record gen =
  pulsor :: Sho
  rotator :: Sho

text \<open>
  Lines 119--120: \<^verbatim>\<open>pulsor = Sho(frequency = 1.0 / pulse_period, phase=0)\<close> and
  \<^verbatim>\<open>rotator = Sho(frequency = 1.0 / oscillation_period, phase=0)\<close>.
\<close>

definition module_init :: "error + gen" where
  "module_init =
     (case py_div 1 pulse_period of
        Inl e \<Rightarrow> Inl e
      | Inr fp \<Rightarrow>
         (case Sho_init fp 0 of
            Inl e \<Rightarrow> Inl e
          | Inr p \<Rightarrow>
             (case py_div 1 oscillation_period of
                Inl e \<Rightarrow> Inl e
              | Inr fr \<Rightarrow>
                 (case Sho_init fr 0 of
                    Inl e \<Rightarrow> Inl e
                  | Inr r \<Rightarrow> Inr \<lparr>pulsor = p, rotator = r\<rparr>))))"

subsection \<open>computeData (lines 126--148)\<close>

text \<open>
  Lines 127--141: both oscillators are advanced, then the Euler angles
  \<open>(tilt, nod, turn)\<close> are computed. The result carries the updated globals.
\<close>

definition computeAngles :: "gen \<Rightarrow> real \<Rightarrow> error + (gen \<times> real \<times> real \<times> real)" where
  "computeAngles g time_step =
     (case advance (pulsor g) time_step of
        Inl e \<Rightarrow> Inl e
      | Inr p \<Rightarrow>
         (case advance (rotator g) time_step of
            Inl e \<Rightarrow> Inl e
          | Inr r \<Rightarrow>
             (let ps = sin_Sho p;
                  tilt = 0
              in if ps > 0
                 then Inr (\<lparr>pulsor = p, rotator = r\<rparr>, tilt, (amplitude * ps) * sin_Sho r, 0)
                 else Inr (\<lparr>pulsor = p, rotator = r\<rparr>, tilt, 0, (amplitude * ps) * sin_Sho r))))"

text \<open>
  Lines 143--148. The encoder \<^verbatim>\<open>puppetry.packedQuaternionFromEulerAngles\<close> belongs to
  another module; it is a parameter here. The message is a dictionary of dictionaries.
\<close>

type_synonym 'p pose = "string \<rightharpoonup> (string \<rightharpoonup> 'p)"

definition computeData ::
    "(real \<Rightarrow> real \<Rightarrow> real \<Rightarrow> 'p) \<Rightarrow> gen \<Rightarrow> real \<Rightarrow> error + (gen \<times> 'p pose)" where
  "computeData packedQuaternionFromEulerAngles g time_step =
     (case computeAngles g time_step of
        Inl e \<Rightarrow> Inl e
      | Inr (g', tilt, nod, turn) \<Rightarrow>
         (let packed_rot = packedQuaternionFromEulerAngles tilt nod turn
          in Inr (g', [''mHead'' \<mapsto> [''local_rot'' \<mapsto> packed_rot]])))"

text \<open>Successive calls of \<^verbatim>\<open>computeData\<close>, one per time step, on the global state.\<close>

fun frames :: "(real \<Rightarrow> real \<Rightarrow> real \<Rightarrow> 'p) \<Rightarrow> gen \<Rightarrow> real list \<Rightarrow> error + gen" where
  "frames pack g [] = Inr g"
| "frames pack g (dt # dts) =
     (case computeData pack g dt of Inl e \<Rightarrow> Inl e | Inr (g', _) \<Rightarrow> frames pack g' dts)"

text \<open>An encoder that keeps the three angles as they are, to observe messages.\<close>

definition euler_triple :: "real \<Rightarrow> real \<Rightarrow> real \<Rightarrow> real \<times> real \<times> real" where
  "euler_triple tilt nod turn = (tilt, nod, turn)"

subsection \<open>puppetry\_coroutine (lines 150--160)\<close>

text \<open>
  The loop reads the clock once before it starts and once in every iteration; it runs as
  long as \<^verbatim>\<open>puppetry.isRunning()\<close> holds. Both are inputs: the first clock reading, and
  the list of the readings \<^verbatim>\<open>t1\<close> of the iterations that run. What the loop does is a
  trace of its calls of \<^verbatim>\<open>eventlet.sleep\<close> and \<^verbatim>\<open>puppetry.sendPuppetryData\<close>, with the
  exception that ended it, if any.
\<close>

datatype 'p event = Sleep real | Send "'p pose"

fun coroutine_loop ::
    "(real \<Rightarrow> real \<Rightarrow> real \<Rightarrow> 'p) \<Rightarrow> real \<Rightarrow> real \<Rightarrow> gen \<Rightarrow> real list
       \<Rightarrow> 'p event list \<times> error option" where
  "coroutine_loop pack t0 delta_time g [] = ([], None)"
| "coroutine_loop pack t0 delta_time g (t1 # clock) =
     (let slept = Sleep (max 0 (2 * update_period - delta_time));
          delta_time' = t1 - t0
      in case computeData pack g delta_time' of
           Inl e \<Rightarrow> ([slept], Some e)
         | Inr (g', data) \<Rightarrow>
            (case coroutine_loop pack t1 delta_time' g' clock of
               (evs, r) \<Rightarrow> (slept # Send data # evs, r)))"

definition puppetry_coroutine ::
    "(real \<Rightarrow> real \<Rightarrow> real \<Rightarrow> 'p) \<Rightarrow> gen \<Rightarrow> real \<Rightarrow> real list \<Rightarrow> 'p event list \<times> error option" where
  "puppetry_coroutine pack g t0 clock = coroutine_loop pack t0 update_period g clock"

text \<open>The durations passed to \<^verbatim>\<open>eventlet.sleep\<close>, in order.\<close>

fun sleeps :: "'p event list \<Rightarrow> real list" where
  "sleeps [] = []"
| "sleeps (Sleep d # evs) = d # sleeps evs"
| "sleeps (Send _ # evs) = sleeps evs"

text \<open>
  The values of the variable \<^verbatim>\<open>delta_time\<close> when the iterations reach
  \<^verbatim>\<open>eventlet.sleep\<close>: its initial value in the first iteration (line 152), and
  afterwards the time that the iteration before measured between its clock reading and
  the one before that (lines 156--158).
\<close>

fun delta_times :: "real \<Rightarrow> real \<Rightarrow> real list \<Rightarrow> real list" where
  "delta_times delta_time t0 [] = []"
| "delta_times delta_time t0 (t1 # clock) = delta_time # delta_times (t1 - t0) t1 clock"

subsection \<open>Notions of the specification\<close>

text \<open>
  \<open>x mod 2\<pi>\<close> as Python's \<^verbatim>\<open>%\<close> on floats computes it: the representative in
  \<open>[0, 2\<pi>)\<close>. It is no part of the source; the specification compares angles with it.
\<close>

definition mod_2pi :: "real \<Rightarrow> real" where
  "mod_2pi x = x - of_int \<lfloor>x / (2 * pi)\<rfloor> * (2 * pi)"

subsection \<open>Invariants\<close>

text \<open>
  What the constructor establishes and \<^verbatim>\<open>advance\<close> keeps: a positive period, one
  period is one turn, and the accumulator is within one period of zero.
\<close>

definition Sho_ok :: "Sho \<Rightarrow> bool" where
  "Sho_ok s \<longleftrightarrow> 0 < period s \<and> period s * wave_speed s = 2 * pi \<and> \<bar>t s\<bar> \<le> period s"

definition gen_ok :: "gen \<Rightarrow> bool" where
  "gen_ok g \<longleftrightarrow> Sho_ok (pulsor g) \<and> Sho_ok (rotator g)"

section \<open>The oscillator over binary64\<close>

subsection \<open>Doubles and rounding\<close>







subsection \<open>Python's float operations\<close>











subsection \<open>class Sho (lines 93--111) over doubles\<close>











section \<open>The oscillator in exact arithmetic\<close>

subsection \<open>Truncation and the wrap\<close>

lemma py_int_near: "\<bar>x - of_int (py_int x)\<bar> < 1"
  unfolding py_int_def by (cases "0 \<le> x") (simp; linarith)+

lemma py_int_wrap_bound:
  assumes "0 < p"
  shows "\<bar>x - of_int (py_int (x / p)) * p\<bar> < p"
proof -
  have "x - of_int (py_int (x / p)) * p = (x / p - of_int (py_int (x / p))) * p"
    using assms by (simp add: algebra_simps)
  then have "\<bar>x - of_int (py_int (x / p)) * p\<bar> = \<bar>x / p - of_int (py_int (x / p))\<bar> * p"
    using assms by (simp add: abs_mult)
  also have "\<dots> < 1 * p"
    using py_int_near [of "x / p"] assms by (intro mult_strict_right_mono) auto
  finally show ?thesis by simp
qed

text \<open>
  With a positive period the wrap never raises; it subtracts a whole number \<open>k\<close> of
  periods, and \<open>k\<close> is zero exactly when the test of line 100 (104) fails.
\<close>

lemma wrap_ok:
  assumes "0 < period s"
  shows "\<exists>k. wrap s = Inr (s\<lparr>t := t s - of_int k * period s\<rparr>)
            \<and> \<bar>t s - of_int k * period s\<bar> \<le> period s
            \<and> (k \<noteq> 0 \<longrightarrow> \<bar>t s - of_int k * period s\<bar> < period s)
            \<and> (k = 0 \<longleftrightarrow> \<bar>t s\<bar> \<le> period s)"
proof (cases "t s > period s \<or> t s < - period s")
  case True
  let ?k = "py_int (t s / period s)"
  have "wrap s = Inr (s\<lparr>t := t s - of_int ?k * period s\<rparr>)"
    using True assms by (simp add: wrap_def py_div_def)
  moreover have "\<bar>t s - of_int ?k * period s\<bar> < period s"
    using py_int_wrap_bound [OF assms] .
  moreover have "?k \<noteq> 0" using True calculation(2) by auto
  ultimately show ?thesis using True by (intro exI [of _ ?k]) auto
next
  case False
  then have "wrap s = Inr s" by (simp add: wrap_def)
  then show ?thesis using False by (intro exI [of _ 0]) auto
qed

subsection \<open>Construction and advance\<close>

lemma Sho_init_zero: "Sho_init 0 phase = Inl ZeroDivisionError"
  by (simp add: Sho_init_def py_div_def)

lemma Sho_init_nonzero:
  assumes "frequency \<noteq> 0"
  shows "\<exists>k. Sho_init frequency phase =
            Inr \<lparr>wave_speed = 2 * pi * \<bar>frequency\<bar>, period = 1 / \<bar>frequency\<bar>,
                 t = phase / (2 * pi * \<bar>frequency\<bar>) - of_int k * (1 / \<bar>frequency\<bar>)\<rparr>
          \<and> \<bar>phase / (2 * pi * \<bar>frequency\<bar>) - of_int k * (1 / \<bar>frequency\<bar>)\<bar> \<le> 1 / \<bar>frequency\<bar>
          \<and> (k \<noteq> 0 \<longrightarrow> \<bar>phase / (2 * pi * \<bar>frequency\<bar>) - of_int k * (1 / \<bar>frequency\<bar>)\<bar> < 1 / \<bar>frequency\<bar>)
          \<and> (k = 0 \<longleftrightarrow> \<bar>phase / (2 * pi * \<bar>frequency\<bar>)\<bar> \<le> 1 / \<bar>frequency\<bar>)"
proof -
  let ?s = "\<lparr>wave_speed = 2 * pi * \<bar>frequency\<bar>, period = 1 / \<bar>frequency\<bar>,
             t = phase / (2 * pi * \<bar>frequency\<bar>)\<rparr>"
  have "Sho_init frequency phase = wrap ?s"
    using assms by (simp add: Sho_init_def py_div_def Let_def)
  moreover have "0 < period ?s" using assms by simp
  ultimately show ?thesis using wrap_ok [of ?s] by simp
qed

lemma Sho_init_ok:
  assumes "frequency \<noteq> 0"
  shows "\<exists>s. Sho_init frequency phase = Inr s \<and> Sho_ok s"
proof -
  obtain k where "Sho_init frequency phase =
            Inr \<lparr>wave_speed = 2 * pi * \<bar>frequency\<bar>, period = 1 / \<bar>frequency\<bar>,
                 t = phase / (2 * pi * \<bar>frequency\<bar>) - of_int k * (1 / \<bar>frequency\<bar>)\<rparr>"
     "\<bar>phase / (2 * pi * \<bar>frequency\<bar>) - of_int k * (1 / \<bar>frequency\<bar>)\<bar> \<le> 1 / \<bar>frequency\<bar>"
    using Sho_init_nonzero [OF assms, of phase] by blast
  then show ?thesis using assms by (simp add: Sho_ok_def)
qed

lemma advance_ok:
  assumes "Sho_ok s"
  shows "\<exists>k. advance s dt = Inr (s\<lparr>t := t s + dt - of_int k * period s\<rparr>)
            \<and> Sho_ok (s\<lparr>t := t s + dt - of_int k * period s\<rparr>)
            \<and> (k \<noteq> 0 \<longrightarrow> \<bar>t s + dt - of_int k * period s\<bar> < period s)
            \<and> (k = 0 \<longleftrightarrow> \<bar>t s + dt\<bar> \<le> period s)"
proof -
  let ?s = "s\<lparr>t := t s + dt\<rparr>"
  have "0 < period ?s" using assms by (simp add: Sho_ok_def)
  from wrap_ok [OF this] show ?thesis
    using assms by (simp add: advance_def Sho_ok_def)
qed

lemma advances_ok:
  assumes "Sho_ok s"
  shows "\<exists>k. advances s dts = Inr (s\<lparr>t := t s + sum_list dts - of_int k * period s\<rparr>)
            \<and> Sho_ok (s\<lparr>t := t s + sum_list dts - of_int k * period s\<rparr>)"
  using assms
proof (induction dts arbitrary: s)
  case Nil
  then show ?case by (intro exI [of _ 0]) simp
next
  case (Cons dt dts)
  obtain k where k: "advance s dt = Inr (s\<lparr>t := t s + dt - of_int k * period s\<rparr>)"
      "Sho_ok (s\<lparr>t := t s + dt - of_int k * period s\<rparr>)"
    using advance_ok [OF Cons.prems] by blast
  let ?s = "s\<lparr>t := t s + dt - of_int k * period s\<rparr>"
  obtain j where j: "advances ?s dts = Inr (?s\<lparr>t := t ?s + sum_list dts - of_int j * period ?s\<rparr>)"
      "Sho_ok (?s\<lparr>t := t ?s + sum_list dts - of_int j * period ?s\<rparr>)"
    using Cons.IH [OF k(2)] by blast
  have eq: "?s\<lparr>t := t ?s + sum_list dts - of_int j * period ?s\<rparr>
          = s\<lparr>t := t s + sum_list (dt # dts) - of_int (k + j) * period s\<rparr>"
    by (simp add: algebra_simps)
  have "advances s (dt # dts) = advances ?s dts"
    using k(1) by simp
  then have "advances s (dt # dts)
          = Inr (s\<lparr>t := t s + sum_list (dt # dts) - of_int (k + j) * period s\<rparr>)"
    using j(1) unfolding eq by simp
  moreover have "Sho_ok (s\<lparr>t := t s + sum_list (dt # dts) - of_int (k + j) * period s\<rparr>)"
    using j(2) unfolding eq .
  ultimately show ?case by blast
qed

lemma advances_single: "advances s [dt] = advance s dt"
  by (simp split: sum.splits)

subsection \<open>Angles that differ by whole turns\<close>

lemma sin_shift: "sin (x - (2 * pi) * of_int k) = sin x"
  by (simp add: sin_diff)

lemma cos_shift: "cos (x - (2 * pi) * of_int k) = cos x"
  by (simp add: cos_diff)

lemma mod_2pi_shift: "mod_2pi (x - (2 * pi) * of_int k) = mod_2pi x"
proof -
  have "(x - (2 * pi) * of_int k) / (2 * pi) = x / (2 * pi) - of_int k"
    by (simp add: field_simps)
  then have fl: "real_of_int \<lfloor>(x - (2 * pi) * of_int k) / (2 * pi)\<rfloor>
                   = of_int \<lfloor>x / (2 * pi)\<rfloor> - of_int k"
    by simp
  show ?thesis
    unfolding mod_2pi_def fl by (simp add: algebra_simps)
qed

lemma theta_upd:
  assumes "period s * wave_speed s = 2 * pi"
  shows "theta (s\<lparr>t := x - of_int k * period s\<rparr>) = x * wave_speed s - (2 * pi) * of_int k"
proof -
  have "(x - of_int k * period s) * wave_speed s
          = x * wave_speed s - of_int k * (period s * wave_speed s)"
    by (simp add: algebra_simps)
  then show ?thesis using assms by (simp add: theta_def)
qed

lemma sin_Sho_theta: "sin_Sho s = sin (theta s)"
  by (simp add: sin_Sho_def theta_def)

lemma cos_Sho_theta: "cos_Sho s = cos (theta s)"
  by (simp add: cos_Sho_def theta_def)

lemma advances_same_total:
  assumes "Sho_ok s" and "sum_list xs = sum_list ys"
  shows "\<exists>a b. advances s xs = Inr a \<and> advances s ys = Inr b
            \<and> sin_Sho a = sin_Sho b \<and> cos_Sho a = cos_Sho b
            \<and> mod_2pi (theta a) = mod_2pi (theta b)"
proof -
  have P: "period s * wave_speed s = 2 * pi"
    using assms(1) by (simp add: Sho_ok_def)
  obtain k where k: "advances s xs = Inr (s\<lparr>t := t s + sum_list xs - of_int k * period s\<rparr>)"
    using advances_ok [OF assms(1)] by blast
  obtain j where j: "advances s ys = Inr (s\<lparr>t := t s + sum_list ys - of_int j * period s\<rparr>)"
    using advances_ok [OF assms(1)] by blast
  let ?x = "(t s + sum_list ys) * wave_speed s"
  have a: "theta (s\<lparr>t := t s + sum_list xs - of_int k * period s\<rparr>) = ?x - (2 * pi) * of_int k"
    unfolding assms(2) by (rule theta_upd [OF P])
  have b: "theta (s\<lparr>t := t s + sum_list ys - of_int j * period s\<rparr>) = ?x - (2 * pi) * of_int j"
    by (rule theta_upd [OF P])
  have "sin_Sho (s\<lparr>t := t s + sum_list xs - of_int k * period s\<rparr>)
          = sin_Sho (s\<lparr>t := t s + sum_list ys - of_int j * period s\<rparr>)"
    unfolding sin_Sho_theta a b sin_shift ..
  moreover have "cos_Sho (s\<lparr>t := t s + sum_list xs - of_int k * period s\<rparr>)
          = cos_Sho (s\<lparr>t := t s + sum_list ys - of_int j * period s\<rparr>)"
    unfolding cos_Sho_theta a b cos_shift ..
  moreover have "mod_2pi (theta (s\<lparr>t := t s + sum_list xs - of_int k * period s\<rparr>))
          = mod_2pi (theta (s\<lparr>t := t s + sum_list ys - of_int j * period s\<rparr>))"
    unfolding a b mod_2pi_shift ..
  ultimately show ?thesis using k j by blast
qed

lemma theta_bound:
  assumes "Sho_ok s"
  shows "\<bar>theta s\<bar> \<le> 2 * pi"
proof -
  have "0 < period s * wave_speed s"
    using assms by (simp add: Sho_ok_def)
  moreover have "0 < period s"
    using assms by (simp add: Sho_ok_def)
  ultimately have w: "0 \<le> wave_speed s"
    by (simp add: zero_less_mult_iff)
  have "\<bar>theta s\<bar> = \<bar>t s\<bar> * wave_speed s"
    using w by (simp add: theta_def abs_mult)
  also have "\<dots> \<le> period s * wave_speed s"
    using assms w by (intro mult_right_mono) (simp_all add: Sho_ok_def)
  finally show ?thesis using assms by (simp add: Sho_ok_def)
qed

section \<open>The pose generator\<close>

subsection \<open>The frames never raise\<close>

lemma module_init_eq:
  "module_init = Inr \<lparr>pulsor = \<lparr>wave_speed = pi / 8, period = 16, t = 0\<rparr>,
                      rotator = \<lparr>wave_speed = pi, period = 2, t = 0\<rparr>\<rparr>"
  by (simp add: module_init_def py_div_def pulse_period_def oscillation_period_def
      Sho_init_def wrap_def Let_def)

lemma module_init_ok: "\<exists>g. module_init = Inr g \<and> gen_ok g"
  by (simp add: module_init_eq gen_ok_def Sho_ok_def)

lemma computeAngles_ok:
  assumes "gen_ok g"
  shows "\<exists>p r. advance (pulsor g) dt = Inr p \<and> advance (rotator g) dt = Inr r
            \<and> gen_ok \<lparr>pulsor = p, rotator = r\<rparr>
            \<and> computeAngles g dt =
                Inr (\<lparr>pulsor = p, rotator = r\<rparr>, 0,
                     (if sin_Sho p > 0 then amplitude * sin_Sho p * sin_Sho r else 0),
                     (if sin_Sho p > 0 then 0 else amplitude * sin_Sho p * sin_Sho r))"
proof -
  obtain p where p: "advance (pulsor g) dt = Inr p" "Sho_ok p"
    using advance_ok [of "pulsor g" dt] assms unfolding gen_ok_def by blast
  obtain r where r: "advance (rotator g) dt = Inr r" "Sho_ok r"
    using advance_ok [of "rotator g" dt] assms unfolding gen_ok_def by blast
  have "computeAngles g dt =
                Inr (\<lparr>pulsor = p, rotator = r\<rparr>, 0,
                     (if sin_Sho p > 0 then amplitude * sin_Sho p * sin_Sho r else 0),
                     (if sin_Sho p > 0 then 0 else amplitude * sin_Sho p * sin_Sho r))"
    by (simp add: computeAngles_def p(1) r(1) Let_def)
  then show ?thesis using p r by (simp add: gen_ok_def)
qed

lemma computeData_ok:
  assumes "gen_ok g"
  shows "\<exists>g' tilt nod turn. computeAngles g dt = Inr (g', tilt, nod, turn) \<and> gen_ok g'
            \<and> computeData pack g dt =
                Inr (g', [''mHead'' \<mapsto> [''local_rot'' \<mapsto> pack tilt nod turn]])"
proof -
  obtain g' tilt nod turn where c: "computeAngles g dt = Inr (g', tilt, nod, turn)" "gen_ok g'"
    using computeAngles_ok [OF assms, of dt] by blast
  then have "computeData pack g dt =
                Inr (g', [''mHead'' \<mapsto> [''local_rot'' \<mapsto> pack tilt nod turn]])"
    by (simp add: computeData_def)
  with c show ?thesis by blast
qed

lemma frames_ok:
  assumes "gen_ok g"
  shows "\<exists>g'. frames pack g dts = Inr g' \<and> gen_ok g'"
  using assms
proof (induction dts arbitrary: g)
  case Nil
  then show ?case by simp
next
  case (Cons dt dts)
  obtain g' d where c: "computeData pack g dt = Inr (g', d)" "gen_ok g'"
    using computeData_ok [OF Cons.prems, of dt pack] by blast
  from Cons.IH [OF c(2)] c(1) show ?case by simp
qed

lemma reachable_ok: "\<exists>g0 g. module_init = Inr g0 \<and> frames pack g0 dts = Inr g \<and> gen_ok g"
proof -
  obtain g0 where g0: "module_init = Inr g0" "gen_ok g0"
    using module_init_ok by blast
  with frames_ok [OF g0(2), of pack dts] show ?thesis by blast
qed

lemma coroutine_loop_sleeps:
  assumes "gen_ok g"
  shows "sleeps (fst (coroutine_loop pack t0 d g clock))
           = map (\<lambda>x. max 0 (2 * update_period - x)) (delta_times d t0 clock)
         \<and> snd (coroutine_loop pack t0 d g clock) = None"
  using assms
proof (induction clock arbitrary: t0 d g)
  case Nil
  then show ?case by simp
next
  case (Cons t1 clock)
  obtain g' data where c: "computeData pack g (t1 - t0) = Inr (g', data)" "gen_ok g'"
    using computeData_ok [OF Cons.prems, of "t1 - t0" pack] by blast
  from Cons.IH [OF c(2), of t1 "t1 - t0"] c(1) show ?case
    by (auto simp: Let_def split: prod.splits)
qed

lemma abs_sin_prod:
  fixes a x y :: real
  assumes "0 \<le> a"
  shows "\<bar>a * sin x * sin y\<bar> \<le> a"
proof -
  have "\<bar>sin x\<bar> * \<bar>sin y\<bar> \<le> 1 * 1"
    by (intro mult_mono) simp_all
  then have "a * (\<bar>sin x\<bar> * \<bar>sin y\<bar>) \<le> a * 1"
    using assms by (intro mult_left_mono) simp_all
  then show ?thesis using assms by (simp add: abs_mult mult.assoc)
qed

lemma amplitude_nonneg: "0 \<le> amplitude"
  by (simp add: amplitude_def)

lemma advance_zero_pulsor:
  "advance \<lparr>wave_speed = pi / 8, period = 16, t = 0\<rparr> 0
     = Inr \<lparr>wave_speed = pi / 8, period = 16, t = 0\<rparr>"
  by (simp add: advance_def wrap_def)

lemma advance_zero_rotator:
  "advance \<lparr>wave_speed = pi, period = 2, t = 0\<rparr> 0
     = Inr \<lparr>wave_speed = pi, period = 2, t = 0\<rparr>"
  by (simp add: advance_def wrap_def)

lemma computeAngles_zero:
  "computeAngles \<lparr>pulsor = \<lparr>wave_speed = pi / 8, period = 16, t = 0\<rparr>,
                  rotator = \<lparr>wave_speed = pi, period = 2, t = 0\<rparr>\<rparr> 0
     = Inr (\<lparr>pulsor = \<lparr>wave_speed = pi / 8, period = 16, t = 0\<rparr>,
             rotator = \<lparr>wave_speed = pi, period = 2, t = 0\<rparr>\<rparr>, 0, 0, 0)"
  by (simp add: computeAngles_def advance_zero_pulsor advance_zero_rotator sin_Sho_def)

lemma computeData_zero:
  "computeData pack \<lparr>pulsor = \<lparr>wave_speed = pi / 8, period = 16, t = 0\<rparr>,
                  rotator = \<lparr>wave_speed = pi, period = 2, t = 0\<rparr>\<rparr> 0
     = Inr (\<lparr>pulsor = \<lparr>wave_speed = pi / 8, period = 16, t = 0\<rparr>,
             rotator = \<lparr>wave_speed = pi, period = 2, t = 0\<rparr>\<rparr>,
            [''mHead'' \<mapsto> [''local_rot'' \<mapsto> pack 0 0 0]])"
  by (simp add: computeData_def computeAngles_zero)

lemma frames_zero:
  "frames pack \<lparr>pulsor = \<lparr>wave_speed = pi / 8, period = 16, t = 0\<rparr>,
                  rotator = \<lparr>wave_speed = pi, period = 2, t = 0\<rparr>\<rparr> (replicate n 0)
     = Inr \<lparr>pulsor = \<lparr>wave_speed = pi / 8, period = 16, t = 0\<rparr>,
             rotator = \<lparr>wave_speed = pi, period = 2, t = 0\<rparr>\<rparr>"
  by (induction n) (simp_all add: computeData_zero)

lemma advance_half_pulsor:
  "advance \<lparr>wave_speed = pi / 8, period = 16, t = 0\<rparr> (1 / 2)
     = Inr \<lparr>wave_speed = pi / 8, period = 16, t = 1 / 2\<rparr>"
  by (simp add: advance_def wrap_def)

lemma advance_half_rotator:
  "advance \<lparr>wave_speed = pi, period = 2, t = 0\<rparr> (1 / 2)
     = Inr \<lparr>wave_speed = pi, period = 2, t = 1 / 2\<rparr>"
  by (simp add: advance_def wrap_def)

lemma sin_Sho_half_pulsor:
  "sin_Sho \<lparr>wave_speed = pi / 8, period = 16, t = 1 / 2\<rparr> = sin (pi / 16)
   \<and> 0 < sin (pi / 16)"
proof -
  have "0 < sin (pi / 16)"
    by (rule sin_gt_zero) simp_all
  then show ?thesis by (simp add: sin_Sho_def)
qed

lemma sin_Sho_half_rotator:
  "sin_Sho \<lparr>wave_speed = pi, period = 2, t = 1 / 2\<rparr> = 1"
  by (simp add: sin_Sho_def)

subsection \<open>A unit oscillator\<close>

lemma Sho_init_unit: "Sho_init 1 0 = Inr \<lparr>wave_speed = 2 * pi, period = 1, t = 0\<rparr>"
  by (simp add: Sho_init_def py_div_def wrap_def Let_def)

lemma theta_not_reduced:
  "advance \<lparr>wave_speed = 2 * pi, period = 1, t = 0\<rparr> 1 = Inr \<lparr>wave_speed = 2 * pi, period = 1, t = 1\<rparr>
   \<and> theta \<lparr>wave_speed = 2 * pi, period = 1, t = 1\<rparr> = 2 * pi
   \<and> advance \<lparr>wave_speed = 2 * pi, period = 1, t = 0\<rparr> (- 1 / 2) = Inr \<lparr>wave_speed = 2 * pi, period = 1, t = - 1 / 2\<rparr>
   \<and> theta \<lparr>wave_speed = 2 * pi, period = 1, t = - 1 / 2\<rparr> = - pi"
  by (simp add: advance_def wrap_def theta_def)

subsection \<open>Bounds and exceptions in exact arithmetic\<close>

text \<open>
  In exact arithmetic the constructor and every \<^verbatim>\<open>advance\<close> leave \<open>-period \<le> t \<le> period\<close>:
  the wrap, when it fires, puts \<open>t\<close> strictly inside, and a value within the bounds is left
  as it is.
\<close>

theorem t_within_period:
  assumes "frequency \<noteq> 0"
  shows "\<exists>s0 s. Sho_init frequency phase = Inr s0 \<and> advances s0 dts = Inr s
           \<and> period s0 = 1 / \<bar>frequency\<bar>
           \<and> (period s0 < \<bar>phase / (2 * pi * \<bar>frequency\<bar>)\<bar> \<longrightarrow> \<bar>t s0\<bar> < period s0)
           \<and> (\<bar>phase / (2 * pi * \<bar>frequency\<bar>)\<bar> \<le> period s0
                \<longrightarrow> t s0 = phase / (2 * pi * \<bar>frequency\<bar>))
           \<and> - period s \<le> t s \<and> t s \<le> period s
           \<and> (\<forall>dt. \<exists>s'. advance s dt = Inr s' \<and> - period s' \<le> t s' \<and> t s' \<le> period s'
                 \<and> (t s + dt > period s \<or> t s + dt < - period s
                      \<longrightarrow> - period s' < t s' \<and> t s' < period s')
                 \<and> (t s + dt = period s \<or> t s + dt = - period s \<longrightarrow> t s' = t s + dt))"
proof -
  let ?p = "1 / \<bar>frequency\<bar>"
  let ?t0 = "phase / (2 * pi * \<bar>frequency\<bar>)"
  obtain k where k: "Sho_init frequency phase =
            Inr \<lparr>wave_speed = 2 * pi * \<bar>frequency\<bar>, period = ?p, t = ?t0 - of_int k * ?p\<rparr>"
      "\<bar>?t0 - of_int k * ?p\<bar> \<le> ?p"
      "k \<noteq> 0 \<longrightarrow> \<bar>?t0 - of_int k * ?p\<bar> < ?p"
      "k = 0 \<longleftrightarrow> \<bar>?t0\<bar> \<le> ?p"
    using Sho_init_nonzero [OF assms, of phase] by blast
  let ?s0 = "\<lparr>wave_speed = 2 * pi * \<bar>frequency\<bar>, period = ?p, t = ?t0 - of_int k * ?p\<rparr>"
  have ok0: "Sho_ok ?s0"
    using k(2) assms by (simp add: Sho_ok_def)
  have init: "period ?s0 = ?p"
      "period ?s0 < \<bar>?t0\<bar> \<longrightarrow> \<bar>t ?s0\<bar> < period ?s0"
      "\<bar>?t0\<bar> \<le> period ?s0 \<longrightarrow> t ?s0 = ?t0"
    using k(3,4) by auto
  obtain s where s: "advances ?s0 dts = Inr s" "Sho_ok s"
    using advances_ok [OF ok0, of dts] by blast
  have step: "\<exists>s'. advance s dt = Inr s' \<and> - period s' \<le> t s' \<and> t s' \<le> period s'
                 \<and> (t s + dt > period s \<or> t s + dt < - period s
                      \<longrightarrow> - period s' < t s' \<and> t s' < period s')
                 \<and> (t s + dt = period s \<or> t s + dt = - period s \<longrightarrow> t s' = t s + dt)" for dt
  proof -
    obtain j where j: "advance s dt = Inr (s\<lparr>t := t s + dt - of_int j * period s\<rparr>)"
        "Sho_ok (s\<lparr>t := t s + dt - of_int j * period s\<rparr>)"
        "j \<noteq> 0 \<longrightarrow> \<bar>t s + dt - of_int j * period s\<bar> < period s"
        "j = 0 \<longleftrightarrow> \<bar>t s + dt\<bar> \<le> period s"
      using advance_ok [OF s(2), of dt] by blast
    show ?thesis
    proof (cases "j = 0")
      case True
      with j show ?thesis by (auto simp: Sho_ok_def)
    next
      case False
      with j show ?thesis by (auto simp: Sho_ok_def)
    qed
  qed
  have "- period s \<le> t s \<and> t s \<le> period s"
    using s(2) by (auto simp: Sho_ok_def)
  with k(1) init s(1) step show ?thesis by blast
qed

text \<open>
  Hence, in exact arithmetic, \<open>\<bar>theta()\<bar> \<le> 2\<pi>\<close> in every state; the angle is not reduced into
  \<open>[0, 2\<pi>)\<close>.
\<close>

theorem theta_within_turn:
  assumes "frequency \<noteq> 0"
  shows "(\<exists>s0 s. Sho_init frequency phase = Inr s0 \<and> advances s0 dts = Inr s
            \<and> \<bar>theta s\<bar> \<le> 2 * pi)
       \<and> (\<exists>s0 s. Sho_init 1 0 = Inr s0 \<and> advance s0 1 = Inr s \<and> theta s = 2 * pi)
       \<and> (\<exists>s0 s. Sho_init 1 0 = Inr s0 \<and> advance s0 (- 1 / 2) = Inr s \<and> theta s = - pi)"
proof -
  obtain s0 where s0: "Sho_init frequency phase = Inr s0" "Sho_ok s0"
    using Sho_init_ok [OF assms] by blast
  obtain s where s: "advances s0 dts = Inr s" "Sho_ok s"
    using advances_ok [OF s0(2), of dts] by blast
  have "\<exists>s0 s. Sho_init frequency phase = Inr s0 \<and> advances s0 dts = Inr s
            \<and> \<bar>theta s\<bar> \<le> 2 * pi"
    using s0(1) s(1) theta_bound [OF s(2)] by blast
  moreover have "\<exists>s0 s. Sho_init 1 0 = Inr s0 \<and> advance s0 1 = Inr s \<and> theta s = 2 * pi"
    using Sho_init_unit theta_not_reduced by blast
  moreover have "\<exists>s0 s. Sho_init 1 0 = Inr s0 \<and> advance s0 (- 1 / 2) = Inr s \<and> theta s = - pi"
    using Sho_init_unit theta_not_reduced by blast
  ultimately show ?thesis by blast
qed

text \<open>
  In exact arithmetic the only exception is the \<^verbatim>\<open>ZeroDivisionError\<close> of the constructor at
  frequency zero.
\<close>

theorem construction_fails_iff_zero:
  "(Sho_init frequency phase = Inl ZeroDivisionError \<longleftrightarrow> frequency = 0)
   \<and> (frequency \<noteq> 0 \<longrightarrow>
        (\<exists>s0. Sho_init frequency phase = Inr s0 \<and> (\<forall>dts. \<exists>s. advances s0 dts = Inr s)))"
proof -
  have "\<exists>s0. Sho_init frequency phase = Inr s0 \<and> (\<forall>dts. \<exists>s. advances s0 dts = Inr s)"
    if nz: "frequency \<noteq> 0"
  proof -
    obtain s0 where s0: "Sho_init frequency phase = Inr s0" "Sho_ok s0"
      using Sho_init_ok [OF nz] by blast
    have "\<exists>s. advances s0 dts = Inr s" for dts
      using advances_ok [OF s0(2), of dts] by blast
    with s0(1) show ?thesis by blast
  qed
  moreover have "Sho_init frequency phase \<noteq> Inl ZeroDivisionError" if "frequency \<noteq> 0"
    using Sho_init_ok [OF that, of phase] by auto
  ultimately show ?thesis using Sho_init_zero by blast
qed

text \<open>
  In exact arithmetic two sequences of calls of \<^verbatim>\<open>advance\<close> with the same sum end with the
  same \<^verbatim>\<open>sin()\<close>, the same \<^verbatim>\<open>cos()\<close> and the same \<^verbatim>\<open>theta()\<close> modulo \<open>2\<pi>\<close>.
\<close>

theorem advance_split_invariance:
  assumes "frequency \<noteq> 0"
  shows "\<exists>s0 s. Sho_init frequency phase = Inr s0 \<and> advances s0 pre = Inr s
     \<and> (\<forall>dt1 dt2. \<exists>a b. advances s [dt1, dt2] = Inr a \<and> advance s (dt1 + dt2) = Inr b
            \<and> sin_Sho a = sin_Sho b \<and> cos_Sho a = cos_Sho b
            \<and> mod_2pi (theta a) = mod_2pi (theta b))
     \<and> (\<forall>xs ys. sum_list xs = sum_list ys \<longrightarrow>
           (\<exists>a b. advances s xs = Inr a \<and> advances s ys = Inr b
            \<and> sin_Sho a = sin_Sho b \<and> cos_Sho a = cos_Sho b
            \<and> mod_2pi (theta a) = mod_2pi (theta b)))"
proof -
  obtain s0 where s0: "Sho_init frequency phase = Inr s0" "Sho_ok s0"
    using Sho_init_ok [OF assms] by blast
  obtain s where s: "advances s0 pre = Inr s" "Sho_ok s"
    using advances_ok [OF s0(2), of pre] by blast
  have two: "\<exists>a b. advances s [dt1, dt2] = Inr a \<and> advance s (dt1 + dt2) = Inr b
            \<and> sin_Sho a = sin_Sho b \<and> cos_Sho a = cos_Sho b
            \<and> mod_2pi (theta a) = mod_2pi (theta b)" for dt1 dt2
    using advances_same_total [OF s(2), of "[dt1, dt2]" "[dt1 + dt2]"]
    unfolding advances_single by simp
  have many: "\<exists>a b. advances s xs = Inr a \<and> advances s ys = Inr b
            \<and> sin_Sho a = sin_Sho b \<and> cos_Sho a = cos_Sho b
            \<and> mod_2pi (theta a) = mod_2pi (theta b)" if "sum_list xs = sum_list ys" for xs ys
    using advances_same_total [OF s(2) that] .
  from s0(1) s(1) two many show ?thesis by blast
qed

section \<open>The oscillator over binary64: evaluation and rounding\<close>

subsection \<open>Evaluating the rounding\<close>








subsection \<open>Frequency 2: an advance that raises\<close>



subsection \<open>The smallest frequency: an infinite state\<close>


subsection \<open>Frequency 3: a wrap that leaves the accumulator outside\<close>




subsection \<open>Frequency 1/4: two splits of one elapsed time\<close>









subsection \<open>Properties of the rounding\<close>


















subsection \<open>Exceptions over doubles\<close>










subsection \<open>The wrap over doubles\<close>



subsection \<open>The accumulator over doubles\<close>



subsection \<open>The raw angle over doubles\<close>







subsection \<open>Runs whose arithmetic is exact\<close>





section \<open>Properties\<close>

subsection \<open>The frame's angles\<close>

text \<open>
  Claim C1. In every frame, that is for every state \<open>g\<close> of the two oscillators that the
  module reaches from its initial state by calls of \<^verbatim>\<open>computeData\<close>, and every time
  step \<open>dt\<close>: both oscillators are advanced by \<open>dt\<close>, to \<open>p\<close> and \<open>r\<close>, and with
  \<open>ps = p.sin()\<close> the angles are \<open>nod = amplitude * ps * r.sin()\<close> and \<open>turn = 0\<close> if
  \<open>ps > 0\<close>, and \<open>nod = 0\<close> and \<open>turn = amplitude * ps * r.sin()\<close> otherwise, in
  particular when \<open>ps = 0\<close>; \<open>tilt = 0\<close> always. These angles are the ones that the
  message carries.
\<close>

theorem pose_mode_switch:
  "\<exists>g0 g p r tilt nod turn.
      module_init = Inr g0 \<and> frames pack g0 dts = Inr g
    \<and> advance (pulsor g) dt = Inr p \<and> advance (rotator g) dt = Inr r
    \<and> computeAngles g dt = Inr (\<lparr>pulsor = p, rotator = r\<rparr>, tilt, nod, turn)
    \<and> computeData pack g dt =
         Inr (\<lparr>pulsor = p, rotator = r\<rparr>, [''mHead'' \<mapsto> [''local_rot'' \<mapsto> pack tilt nod turn]])
    \<and> (sin_Sho p > 0 \<longrightarrow> nod = amplitude * sin_Sho p * sin_Sho r \<and> turn = 0)
    \<and> (\<not> sin_Sho p > 0 \<longrightarrow> nod = 0 \<and> turn = amplitude * sin_Sho p * sin_Sho r)
    \<and> (sin_Sho p = 0 \<longrightarrow> nod = 0 \<and> turn = amplitude * sin_Sho p * sin_Sho r)
    \<and> tilt = 0"
proof -
  obtain g0 g where g: "module_init = Inr g0" "frames pack g0 dts = Inr g" "gen_ok g"
    using reachable_ok by blast
  obtain p r where pr: "advance (pulsor g) dt = Inr p" "advance (rotator g) dt = Inr r"
      "computeAngles g dt =
                Inr (\<lparr>pulsor = p, rotator = r\<rparr>, 0,
                     (if sin_Sho p > 0 then amplitude * sin_Sho p * sin_Sho r else 0),
                     (if sin_Sho p > 0 then 0 else amplitude * sin_Sho p * sin_Sho r))"
    using computeAngles_ok [OF g(3), of dt] by blast
  let ?nod = "if sin_Sho p > 0 then amplitude * sin_Sho p * sin_Sho r else 0"
  let ?turn = "if sin_Sho p > 0 then 0 else amplitude * sin_Sho p * sin_Sho r"
  have "computeData pack g dt =
         Inr (\<lparr>pulsor = p, rotator = r\<rparr>, [''mHead'' \<mapsto> [''local_rot'' \<mapsto> pack 0 ?nod ?turn]])"
    by (simp add: computeData_def pr(3))
  moreover have "(sin_Sho p > 0 \<longrightarrow> ?nod = amplitude * sin_Sho p * sin_Sho r \<and> ?turn = 0)
    \<and> (\<not> sin_Sho p > 0 \<longrightarrow> ?nod = 0 \<and> ?turn = amplitude * sin_Sho p * sin_Sho r)
    \<and> (sin_Sho p = 0 \<longrightarrow> ?nod = 0 \<and> ?turn = amplitude * sin_Sho p * sin_Sho r)"
    by simp
  ultimately show ?thesis using g(1,2) pr by blast
qed

text \<open>
  Both branches at the initial state. With time step 0, \<open>ps = 0\<close>: the shake branch,
  and all three angles are 0. With time step \<open>1/2\<close>, \<open>ps = sin (\<pi>/16) > 0\<close> and the
  rotator's sine is 1: the nod branch, with \<open>nod = amplitude * sin (\<pi>/16)\<close>.
\<close>

theorem pose_mode_switch_witness:
  "computeAngles \<lparr>pulsor = \<lparr>wave_speed = pi / 8, period = 16, t = 0\<rparr>,
                  rotator = \<lparr>wave_speed = pi, period = 2, t = 0\<rparr>\<rparr> 0
     = Inr (\<lparr>pulsor = \<lparr>wave_speed = pi / 8, period = 16, t = 0\<rparr>,
             rotator = \<lparr>wave_speed = pi, period = 2, t = 0\<rparr>\<rparr>, 0, 0, 0)
   \<and> computeAngles \<lparr>pulsor = \<lparr>wave_speed = pi / 8, period = 16, t = 0\<rparr>,
                  rotator = \<lparr>wave_speed = pi, period = 2, t = 0\<rparr>\<rparr> (1 / 2)
     = Inr (\<lparr>pulsor = \<lparr>wave_speed = pi / 8, period = 16, t = 1 / 2\<rparr>,
             rotator = \<lparr>wave_speed = pi, period = 2, t = 1 / 2\<rparr>\<rparr>,
            0, amplitude * sin (pi / 16), 0)"
proof -
  let ?g0 = "\<lparr>pulsor = \<lparr>wave_speed = pi / 8, period = 16, t = 0\<rparr>,
                  rotator = \<lparr>wave_speed = pi, period = 2, t = 0\<rparr>\<rparr>"
  have shake: "computeAngles ?g0 0 = Inr (?g0, 0, 0, 0)"
  proof -
    obtain g0 g p r tilt nod turn where h:
        "module_init = Inr g0" "frames euler_triple g0 [] = Inr g"
        "advance (pulsor g) 0 = Inr p" "advance (rotator g) 0 = Inr r"
        "computeAngles g 0 = Inr (\<lparr>pulsor = p, rotator = r\<rparr>, tilt, nod, turn)"
        "\<not> sin_Sho p > 0 \<longrightarrow> nod = 0 \<and> turn = amplitude * sin_Sho p * sin_Sho r"
        "tilt = 0"
      using pose_mode_switch [of euler_triple "[]" 0] by blast
    have g: "g = ?g0"
      using h(1,2) by (simp add: module_init_eq)
    have p: "p = \<lparr>wave_speed = pi / 8, period = 16, t = 0\<rparr>"
      using h(3) by (simp add: g advance_zero_pulsor)
    have r: "r = \<lparr>wave_speed = pi, period = 2, t = 0\<rparr>"
      using h(4) by (simp add: g advance_zero_rotator)
    have "sin_Sho p = 0" by (simp add: p sin_Sho_def)
    with h(6) have "nod = 0" "turn = 0" by simp_all
    with h(5,7) show ?thesis by (simp add: g p r)
  qed
  have nod: "computeAngles ?g0 (1 / 2)
     = Inr (\<lparr>pulsor = \<lparr>wave_speed = pi / 8, period = 16, t = 1 / 2\<rparr>,
             rotator = \<lparr>wave_speed = pi, period = 2, t = 1 / 2\<rparr>\<rparr>,
            0, amplitude * sin (pi / 16), 0)"
  proof -
    obtain g0 g p r tilt nod turn where h:
        "module_init = Inr g0" "frames euler_triple g0 [] = Inr g"
        "advance (pulsor g) (1 / 2) = Inr p" "advance (rotator g) (1 / 2) = Inr r"
        "computeAngles g (1 / 2) = Inr (\<lparr>pulsor = p, rotator = r\<rparr>, tilt, nod, turn)"
        "sin_Sho p > 0 \<longrightarrow> nod = amplitude * sin_Sho p * sin_Sho r \<and> turn = 0"
        "tilt = 0"
      using pose_mode_switch [of euler_triple "[]" "1 / 2"] by blast
    have g: "g = ?g0"
      using h(1,2) by (simp add: module_init_eq)
    have p: "p = \<lparr>wave_speed = pi / 8, period = 16, t = 1 / 2\<rparr>"
      using h(3) by (simp add: g advance_half_pulsor)
    have r: "r = \<lparr>wave_speed = pi, period = 2, t = 1 / 2\<rparr>"
      using h(4) by (simp add: g advance_half_rotator)
    have "sin_Sho p = sin (pi / 16)" "0 < sin_Sho p" "sin_Sho r = 1"
      using sin_Sho_half_pulsor sin_Sho_half_rotator by (simp_all add: p r)
    with h(6) have "nod = amplitude * sin (pi / 16)" "turn = 0" by simp_all
    with h(5,7) show ?thesis by (simp add: g p r)
  qed
  from shake nod show ?thesis by (rule conjI)
qed

text \<open>
  Claim C6. In every frame \<open>\<bar>nod\<bar> \<le> amplitude\<close> and \<open>\<bar>turn\<bar> \<le> amplitude\<close>, where
  \<open>amplitude = \<pi>/6\<close>.
\<close>

theorem amplitude_bound:
  "\<exists>g0 g g' tilt nod turn.
      module_init = Inr g0 \<and> frames pack g0 dts = Inr g
    \<and> computeAngles g dt = Inr (g', tilt, nod, turn)
    \<and> \<bar>nod\<bar> \<le> amplitude \<and> \<bar>turn\<bar> \<le> amplitude \<and> amplitude = pi / 6"
proof -
  obtain g0 g where g: "module_init = Inr g0" "frames pack g0 dts = Inr g" "gen_ok g"
    using reachable_ok by blast
  obtain p r where pr:
      "computeAngles g dt =
                Inr (\<lparr>pulsor = p, rotator = r\<rparr>, 0,
                     (if sin_Sho p > 0 then amplitude * sin_Sho p * sin_Sho r else 0),
                     (if sin_Sho p > 0 then 0 else amplitude * sin_Sho p * sin_Sho r))"
    using computeAngles_ok [OF g(3), of dt] by blast
  have b: "\<bar>amplitude * sin_Sho p * sin_Sho r\<bar> \<le> amplitude"
    unfolding sin_Sho_def by (rule abs_sin_prod [OF amplitude_nonneg])
  have "\<bar>if sin_Sho p > 0 then amplitude * sin_Sho p * sin_Sho r else 0\<bar> \<le> amplitude"
    using b amplitude_nonneg by simp
  moreover have "\<bar>if sin_Sho p > 0 then 0 else amplitude * sin_Sho p * sin_Sho r\<bar> \<le> amplitude"
    using b amplitude_nonneg by simp
  ultimately show ?thesis using g(1,2) pr amplitude_def by blast
qed

subsection \<open>The message\<close>

text \<open>
  Claim C2 says that the single joint key of the message is \<open>Head\<close>. The key that line 146
  writes is \<open>mHead\<close>: at the initial state, with time step 0, the message has no key
  \<open>Head\<close>.
\<close>

theorem pose_key_counterexample:
  "computeData euler_triple (projr module_init) 0
     = Inr (projr module_init, [''mHead'' \<mapsto> [''local_rot'' \<mapsto> (0, 0, 0)]])
   \<and> dom [''mHead'' \<mapsto> [''local_rot'' \<mapsto> (0::real, 0::real, 0::real)]] \<noteq> {''Head''}"
  by (simp add: module_init_eq computeData_zero euler_triple_def)

text \<open>
  Claim C2, amended. In every frame the message is a dictionary whose single key is
  \<open>mHead\<close>, mapped to a dictionary whose single key is \<open>local_rot\<close>, mapped to the
  encoding of \<open>(tilt, nod, turn)\<close>.
\<close>

theorem pose_update_shape:
  "\<exists>g0 g g' tilt nod turn data inner.
      module_init = Inr g0 \<and> frames pack g0 dts = Inr g
    \<and> computeAngles g dt = Inr (g', tilt, nod, turn)
    \<and> computeData pack g dt = Inr (g', data)
    \<and> dom data = {''mHead''} \<and> data ''mHead'' = Some inner
    \<and> dom inner = {''local_rot''} \<and> inner ''local_rot'' = Some (pack tilt nod turn)"
proof -
  obtain g0 g where g: "module_init = Inr g0" "frames pack g0 dts = Inr g" "gen_ok g"
    using reachable_ok by blast
  obtain g' tilt nod turn where c: "computeAngles g dt = Inr (g', tilt, nod, turn)"
      "computeData pack g dt =
                Inr (g', [''mHead'' \<mapsto> [''local_rot'' \<mapsto> pack tilt nod turn]])"
    using computeData_ok [OF g(3), of dt pack] by blast
  let ?inner = "[''local_rot'' \<mapsto> pack tilt nod turn]"
  have "dom [''mHead'' \<mapsto> ?inner] = {''mHead''}" "[''mHead'' \<mapsto> ?inner] ''mHead'' = Some ?inner"
       "dom ?inner = {''local_rot''}" "?inner ''local_rot'' = Some (pack tilt nod turn)"
    by simp_all
  with g(1,2) c show ?thesis by blast
qed

subsection \<open>The frame loop\<close>

text \<open>
  Claim C3 says that every iteration sleeps for \<open>max(0, 0.1 - delta_time)\<close>. Line 155
  subtracts from twice the update period. With the clock at 0 before the loop and at
  \<open>1/20\<close> and \<open>1/10\<close> in the first two iterations, the second iteration has
  \<open>delta_time = 1/20\<close> and sleeps for \<open>3/20\<close>, where the claim gives \<open>1/20\<close>.
\<close>

theorem sleep_duration_counterexample:
  "sleeps (fst (puppetry_coroutine euler_triple (projr module_init) 0 [1 / 20, 1 / 10]))
     = [1 / 10, 3 / 20]
   \<and> delta_times update_period 0 [1 / 20, 1 / 10] = [1 / 10, 1 / 20]
   \<and> max 0 (update_period - 1 / 20) = 1 / 20"
proof -
  have "gen_ok (projr module_init)"
    by (simp add: module_init_eq gen_ok_def Sho_ok_def)
  from coroutine_loop_sleeps [OF this, of euler_triple 0 update_period "[1 / 20, 1 / 10]"]
  show ?thesis
    by (simp add: puppetry_coroutine_def update_period_def)
qed

text \<open>
  Claim C3, amended. In every iteration of the frame loop, the duration passed to the sleep
  is \<open>max(0, 2 * update_period - delta_time)\<close>, with \<open>update_period = 0.1\<close>, where
  \<open>delta_time\<close> is \<open>update_period\<close> in the first iteration and afterwards the time
  elapsed between the two clock readings before; the loop raises no exception.
\<close>

theorem sleep_duration:
  "\<exists>g0. module_init = Inr g0
     \<and> sleeps (fst (puppetry_coroutine pack g0 t0 clock))
         = map (\<lambda>d. max 0 (2 * update_period - d)) (delta_times update_period t0 clock)
     \<and> snd (puppetry_coroutine pack g0 t0 clock) = None
     \<and> length (delta_times update_period t0 clock) = length clock
     \<and> update_period = 1 / 10"
proof -
  obtain g0 where g0: "module_init = Inr g0" "gen_ok g0"
    using module_init_ok by blast
  have len: "length (delta_times d t0 clock) = length clock" for d
    by (induction clock arbitrary: d t0) simp_all
  have run: "sleeps (fst (puppetry_coroutine pack g0 t0 clock))
         = map (\<lambda>d. max 0 (2 * update_period - d)) (delta_times update_period t0 clock)
     \<and> snd (puppetry_coroutine pack g0 t0 clock) = None"
    unfolding puppetry_coroutine_def by (rule coroutine_loop_sleeps [OF g0(2)])
  from g0(1) run len update_period_def show ?thesis by blast
qed

subsection \<open>Splitting the elapsed time\<close>




subsection \<open>The accumulator and the period\<close>




subsection \<open>The raw angle\<close>




subsection \<open>Exceptions\<close>




subsection \<open>Scenarios\<close>

text \<open>
  Claim C8. From the module's initial state, any number of calls \<^verbatim>\<open>computeData(0.0)\<close>
  leaves both oscillators as they are, and each call returns the message of the angles
  \<open>tilt = 0\<close>, \<open>nod = 0\<close>, \<open>turn = 0\<close>.
\<close>

theorem zero_step_fixed:
  "\<exists>g0. module_init = Inr g0
     \<and> frames pack g0 (replicate n 0) = Inr g0
     \<and> computeAngles g0 0 = Inr (g0, 0, 0, 0)
     \<and> computeData pack g0 0 = Inr (g0, [''mHead'' \<mapsto> [''local_rot'' \<mapsto> pack 0 0 0]])"
  using module_init_eq frames_zero computeAngles_zero computeData_zero by blast

text \<open>
  Claim C9. The oscillator constructed with frequency \<open>1/16\<close> and phase 0, after
  \<^verbatim>\<open>advance(4.0)\<close>, has \<^verbatim>\<open>sin()\<close> equal to 1 and \<^verbatim>\<open>cos()\<close> equal to 0; over the reals
  the values are exact.
\<close>

theorem quarter_period:
  "\<exists>s0 s. Sho_init (1 / 16) 0 = Inr s0 \<and> advance s0 4 = Inr s
       \<and> sin_Sho s = 1 \<and> cos_Sho s = 0"
proof -
  have "Sho_init (1 / 16) 0 = Inr \<lparr>wave_speed = pi / 8, period = 16, t = 0\<rparr>"
    by (simp add: Sho_init_def py_div_def wrap_def Let_def)
  moreover have "advance \<lparr>wave_speed = pi / 8, period = 16, t = 0\<rparr> 4
                   = Inr \<lparr>wave_speed = pi / 8, period = 16, t = 4\<rparr>"
    by (simp add: advance_def wrap_def)
  moreover have "sin_Sho \<lparr>wave_speed = pi / 8, period = 16, t = 4\<rparr> = 1"
    by (simp add: sin_Sho_def)
  moreover have "cos_Sho \<lparr>wave_speed = pi / 8, period = 16, t = 4\<rparr> = 0"
    by (simp add: cos_Sho_def)
  ultimately show ?thesis by blast
qed

end
